theory Spec2Isabelle
  imports Complex_Main "HOL-Library.Word" "HOL-Library.Sublist"
begin

section \<open>Errors\<close>

text \<open>
  A Go \<open>error\<close> value is either a plain message or a message that wraps a cause
  (what \<open>fmt.Errorf\<close> builds for the verb \<open>%w\<close>). \<open>Error\<close> is the method
  \<open>err.Error()\<close>, \<open>Unwrap\<close> the method \<open>errors.Unwrap\<close> reads.
\<close>

datatype go_error = ErrorString string | WrapError string go_error

fun Error :: "go_error \<Rightarrow> string" where
  "Error (ErrorString s) = s"
| "Error (WrapError s c) = s"

fun Unwrap :: "go_error \<Rightarrow> go_error option" where
  "Unwrap (ErrorString s) = None"
| "Unwrap (WrapError s c) = Some c"

text \<open>\<open>fmt.Errorf(prefix + "%w", err)\<close>: the message is the prefix followed by the
  cause's message, and the cause stays reachable.\<close>

definition Errorf_w :: "string \<Rightarrow> go_error \<Rightarrow> go_error" where
  "Errorf_w msg err = WrapError (msg @ Error err) err"

text \<open>\<open>fmt.Errorf(msg)\<close> with no verb: a plain error.\<close>

definition Errorf :: "string \<Rightarrow> go_error" where
  "Errorf msg = ErrorString msg"

section \<open>The readings of the host (gopsutil)\<close>

text \<open>
  \<open>float64\<close> and \<open>float32\<close> values are the real numbers they denote; \<open>uint64\<close>,
  \<open>int64\<close> and \<open>int32\<close> are words, read with \<open>unat\<close> and \<open>sint\<close>.
  Each read of the host either fails with an error or returns its reading.
\<close>

record VirtualMemoryStat =
  mem_UsedPercent :: real

record UsageStat =
  disk_UsedPercent :: real

record IOCountersStat =
  BytesSent :: "64 word"
  BytesRecv :: "64 word"

record MemoryInfoStat =
  RSS :: "64 word"

record Process =
  Pid :: "32 word"
  proc_Name :: "go_error + string"
  proc_CPUPercent :: "go_error + real"
  proc_MemoryInfo :: "go_error + MemoryInfoStat"

record Host =
  cpu_Percent :: "go_error + real list"
  mem_VirtualMemory :: "go_error + VirtualMemoryStat"
  disk_Usage :: "string \<Rightarrow> go_error + UsageStat"
  net_IOCounters :: "go_error + IOCountersStat list"
  process_Processes :: "go_error + Process list"

section \<open>SystemStats and ProcessInfo\<close>

record ProcessInfo =
  PID :: "32 word"
  Name :: string
  CPUPercent :: real
  MemoryUsage :: real

record SystemStats =
  CPUUsage :: real
  MemUsage :: real
  DiskUsage :: real
  NetTraffic :: "64 word"
  Processes :: "ProcessInfo list"

subsection \<open>The conversion \<open>float32(memInfo.RSS)\<close>\<close>

text \<open>
  A \<open>uint64\<close> converted to \<open>float32\<close> keeps 24 significant bits and rounds to the
  nearest value, ties to the even one. \<open>bit_length n\<close> is the number of bits of \<open>n\<close>.
\<close>

fun bit_length :: "nat \<Rightarrow> nat" where
  "bit_length n = (if n = 0 then 0 else Suc (bit_length (n div 2)))"

declare bit_length.simps [simp del]

definition float32 :: "nat \<Rightarrow> real" where
  "float32 n =
     (let k = bit_length n in
      if k \<le> 24 then real n
      else
        let e = k - 24;
            q = n div 2 ^ e;
            r = n mod 2 ^ e;
            h = 2 ^ (e - 1)
        in real ((if h < r \<or> (r = h \<and> odd q) then q + 1 else q) * 2 ^ e))"

section \<open>getStats\<close>

text \<open>The loop over the process list: a process whose name, CPU percent or memory
  read fails is skipped, every other one is appended.\<close>

fun collect :: "ProcessInfo list \<Rightarrow> Process list \<Rightarrow> ProcessInfo list" where
  "collect processInfo [] = processInfo"
| "collect processInfo (proc # procs) =
     (case proc_Name proc of
        Inl err \<Rightarrow> collect processInfo procs
      | Inr name \<Rightarrow>
          (case proc_CPUPercent proc of
             Inl err \<Rightarrow> collect processInfo procs
           | Inr cpuPercent \<Rightarrow>
               (case proc_MemoryInfo proc of
                  Inl err \<Rightarrow> collect processInfo procs
                | Inr memInfo \<Rightarrow>
                    collect
                      (processInfo @
                        [\<lparr>PID = Pid proc, Name = name, CPUPercent = cpuPercent,
                          MemoryUsage = float32 (unat (RSS memInfo)) / (1024 * 1024)\<rparr>])
                      procs)))"

definition getStats :: "Host \<Rightarrow> go_error + SystemStats" where
  "getStats host =
     (case cpu_Percent host of
        Inl err \<Rightarrow> Inl (Errorf_w ''error getting CPU stats: '' err)
      | Inr cpuPercentages \<Rightarrow>
     (case cpuPercentages of
        [] \<Rightarrow> Inl (Errorf ''no CPU statistics available'')
      | cpu0 # _ \<Rightarrow>
     (case mem_VirtualMemory host of
        Inl err \<Rightarrow> Inl (Errorf_w ''error getting memory stats: '' err)
      | Inr memStats \<Rightarrow>
     (case disk_Usage host ''/'' of
        Inl err \<Rightarrow> Inl (Errorf_w ''error getting disk stats: '' err)
      | Inr diskStats \<Rightarrow>
     (case net_IOCounters host of
        Inl err \<Rightarrow> Inl (Errorf_w ''error getting network stats: '' err)
      | Inr netStats \<Rightarrow>
     (case netStats of
        [] \<Rightarrow> Inl (Errorf ''no network statistics available'')
      | net0 # _ \<Rightarrow>
     (case process_Processes host of
        Inl err \<Rightarrow> Inl (Errorf_w ''error getting process list: '' err)
      | Inr procs \<Rightarrow>
          Inr \<lparr>CPUUsage = cpu0,
               MemUsage = mem_UsedPercent memStats,
               DiskUsage = disk_UsedPercent diskStats,
               NetTraffic = BytesRecv net0 + BytesSent net0,
               Processes = collect [] procs\<rparr>)))))))"

section \<open>The response writer and the JSON encoder\<close>

text \<open>
  A JSON value as \<open>encoding/json\<close> builds it from a struct: an object lists the
  fields in the struct's order under the names of their \<open>json\<close> tags.
\<close>

datatype json = JNumber real | JString string | JArray "json list" | JObject "(string \<times> json) list"

definition Marshal_ProcessInfo :: "ProcessInfo \<Rightarrow> json" where
  "Marshal_ProcessInfo p =
     JObject [(''pid'', JNumber (real_of_int (sint (PID p)))),
              (''name'', JString (Name p)),
              (''cpuPercent'', JNumber (CPUPercent p)),
              (''memoryUsage'', JNumber (MemoryUsage p))]"

definition Marshal_SystemStats :: "SystemStats \<Rightarrow> json" where
  "Marshal_SystemStats stats =
     JObject [(''cpuUsage'', JNumber (CPUUsage stats)),
              (''memUsage'', JNumber (MemUsage stats)),
              (''diskUsage'', JNumber (DiskUsage stats)),
              (''netTraffic'', JNumber (real_of_int (sint (NetTraffic stats)))),
              (''processes'', JArray (map Marshal_ProcessInfo (Processes stats)))]"

text \<open>
  One entry of the response body per call of \<open>Write\<close>: a text, or the line the JSON
  encoder writes for a value (its JSON text and a newline).
\<close>

datatype chunk = Text string | JSONLine json

text \<open>
  \<open>http.ResponseWriter\<close>: the header map, the status code once it is written, the
  body written so far, how many of its chunks have been flushed to the client, and
  whether the writer implements \<open>http.Flusher\<close>.
\<close>

record ResponseWriter =
  Header :: "string \<Rightarrow> string option"
  StatusCode :: "nat option"
  Body :: "chunk list"
  Flushed :: nat
  Flusher :: bool

definition Header_Set :: "string \<Rightarrow> string \<Rightarrow> ResponseWriter \<Rightarrow> ResponseWriter" where
  "Header_Set k v w = w\<lparr>Header := (Header w)(k \<mapsto> v)\<rparr>"

definition Header_Del :: "string \<Rightarrow> ResponseWriter \<Rightarrow> ResponseWriter" where
  "Header_Del k w = w\<lparr>Header := (Header w)(k := None)\<rparr>"

text \<open>The first status code written stays; a later call is ignored.\<close>

definition WriteHeader :: "nat \<Rightarrow> ResponseWriter \<Rightarrow> ResponseWriter" where
  "WriteHeader code w = (if StatusCode w = None then w\<lparr>StatusCode := Some code\<rparr> else w)"

text \<open>A write sends the status 200 first when none has been written.\<close>

definition Write :: "chunk \<Rightarrow> ResponseWriter \<Rightarrow> ResponseWriter" where
  "Write c w = (let w' = WriteHeader 200 w in w'\<lparr>Body := Body w' @ [c]\<rparr>)"

text \<open>\<open>w.(http.Flusher).Flush()\<close>: \<open>None\<close> is the panic of the type assertion on a
  writer that is no \<open>http.Flusher\<close>.\<close>

definition Flush :: "ResponseWriter \<Rightarrow> ResponseWriter option" where
  "Flush w =
     (if Flusher w then
        (let w' = WriteHeader 200 w in Some (w'\<lparr>Flushed := length (Body w')\<rparr>))
      else None)"

definition LF :: string where
  "LF = [CHR 0x0A]"

text \<open>\<open>http.Error(w, msg, code)\<close> of \<open>net/http\<close>.\<close>

definition http_Error :: "ResponseWriter \<Rightarrow> string \<Rightarrow> nat \<Rightarrow> ResponseWriter" where
  "http_Error w msg code =
     Write (Text (msg @ LF))
       (WriteHeader code
         (Header_Set ''X-Content-Type-Options'' ''nosniff''
           (Header_Set ''Content-Type'' ''text/plain; charset=utf-8''
             (Header_Del ''Content-Length'' w))))"

text \<open>\<open>json.NewEncoder(w).Encode(stats)\<close>.\<close>

definition Encode :: "ResponseWriter \<Rightarrow> SystemStats \<Rightarrow> ResponseWriter" where
  "Encode w stats = Write (JSONLine (Marshal_SystemStats stats)) w"

section \<open>statsHandler\<close>

record Request =
  Method :: string

definition statsHandler :: "Host \<Rightarrow> ResponseWriter \<Rightarrow> Request \<Rightarrow> ResponseWriter" where
  "statsHandler host w r =
     (if Method r \<noteq> ''GET'' then http_Error w ''Method not allowed'' 405
      else
        (case getStats host of
           Inl err \<Rightarrow> http_Error w (Error err) 500
         | Inr stats \<Rightarrow> Encode (Header_Set ''Content-Type'' ''application/json'' w) stats))"

section \<open>sseHandler\<close>

text \<open>
  The handler's \<open>select\<close> has two cases. A scheduling point says which of them can
  proceed (the request's context is done, a tick waits in the ticker's channel), which
  one the runtime's random choice would take when both can, and what the host reports
  when it is sampled there.
\<close>

datatype select_case = ctx_Done | ticker_C

record sched =
  done_ready :: bool
  tick_ready :: bool
  pick :: select_case
  host :: Host

text \<open>Go's \<open>select\<close>: it blocks (\<open>None\<close>) while no case can proceed, takes the one that
  can when there is only one, and chooses between them at random when both can.\<close>

definition select :: "sched \<Rightarrow> select_case option" where
  "select p =
     (if done_ready p \<and> tick_ready p then Some (pick p)
      else if done_ready p then Some ctx_Done
      else if tick_ready p then Some ticker_C
      else None)"

datatype control = Running | Returned | Panicked

record session =
  writer :: ResponseWriter
  ticker_stopped :: bool
  control :: control

text \<open>The body of \<open>case <-ticker.C\<close>.\<close>

definition tick :: "Host \<Rightarrow> session \<Rightarrow> session" where
  "tick h s =
     (let w1 =
        (case getStats h of
           Inl err \<Rightarrow>
             Write (Text (''event: error'' @ LF @ ''data: '' @ Error err @ LF @ LF)) (writer s)
         | Inr stats \<Rightarrow>
             Write (Text (LF @ LF))
               (Encode (Write (Text (''event: stats'' @ LF @ ''data: '')) (writer s)) stats))
      in (case Flush w1 of
            None \<Rightarrow> s\<lparr>writer := w1, control := Panicked\<rparr>
          | Some w2 \<Rightarrow> s\<lparr>writer := w2\<rparr>))"

text \<open>One iteration of \<open>for { select { ... } }\<close> at a scheduling point.\<close>

definition iteration :: "sched \<Rightarrow> session \<Rightarrow> session" where
  "iteration p s =
     (case select p of
        None \<Rightarrow> s
      | Some ctx_Done \<Rightarrow> s\<lparr>control := Returned\<rparr>
      | Some ticker_C \<Rightarrow> tick (host p) s)"

text \<open>The loop along a finite run of scheduling points; it iterates while the handler
  has neither returned nor panicked.\<close>

fun loop :: "session \<Rightarrow> sched list \<Rightarrow> session" where
  "loop s [] = s"
| "loop s (p # ps) = (if control s = Running then loop (iteration p s) ps else s)"

text \<open>The handler: the four headers, the ticker, the loop, and the deferred
  \<open>ticker.Stop()\<close>, which runs when the handler leaves by return or by panic.\<close>

definition sseHandler :: "ResponseWriter \<Rightarrow> Request \<Rightarrow> sched list \<Rightarrow> session" where
  "sseHandler w r ps =
     (let w' =
        Header_Set ''Access-Control-Allow-Origin'' ''*''
          (Header_Set ''Connection'' ''keep-alive''
            (Header_Set ''Cache-Control'' ''no-cache''
              (Header_Set ''Content-Type'' ''text/event-stream'' w)));
          s = loop \<lparr>writer = w', ticker_stopped = False, control = Running\<rparr> ps
      in if control s = Running then s else s\<lparr>ticker_stopped := True\<rparr>)"

section \<open>The server\<close>

definition defaultPort :: string where
  "defaultPort = ''3000''"

record Server =
  port :: string

definition NewServer :: "string \<Rightarrow> Server" where
  "NewServer p = \<lparr>port = (if p = [] then defaultPort else p)\<rparr>"

text \<open>The address \<open>Start\<close> gives the listener.\<close>

definition Start_Addr :: "Server \<Rightarrow> string" where
  "Start_Addr s = '':'' @ port s"

text \<open>\<open>os.Getenv\<close>: the value of the variable, empty when it is not set.\<close>

definition Getenv :: "(string \<Rightarrow> string option) \<Rightarrow> string \<Rightarrow> string" where
  "Getenv env k = (case env k of None \<Rightarrow> [] | Some v \<Rightarrow> v)"

text \<open>The server \<open>main\<close> constructs and starts.\<close>

definition main_server :: "(string \<Rightarrow> string option) \<Rightarrow> Server" where
  "main_server env = NewServer (Getenv env ''PORT'')"

section \<open>Predicates of the specification and concrete inputs\<close>

text \<open>A process has a field failure when its name, CPU percent or memory read fails.\<close>

definition field_failure :: "Process \<Rightarrow> bool" where
  "field_failure p = (isl (proc_Name p) \<or> isl (proc_CPUPercent p) \<or> isl (proc_MemoryInfo p))"

text \<open>An entry of the result resolves a process when each of its four fields is what the
  process's read returned (the memory in megabytes).\<close>

definition resolved :: "Process \<Rightarrow> ProcessInfo \<Rightarrow> bool" where
  "resolved p q =
     (PID q = Pid p \<and> proc_Name p = Inr (Name q) \<and> proc_CPUPercent p = Inr (CPUPercent q) \<and>
      (case proc_MemoryInfo p of
         Inl err \<Rightarrow> False
       | Inr memInfo \<Rightarrow> MemoryUsage q = float32 (unat (RSS memInfo)) / 1048576))"

text \<open>The host of the snapshot scenario: every read succeeds.\<close>

definition proc_x :: Process where
  "proc_x =
     \<lparr>Pid = 10, proc_Name = Inr ''x'', proc_CPUPercent = Inr 1.0,
      proc_MemoryInfo = Inr \<lparr>RSS = 2097152\<rparr>\<rparr>"

definition host_ok :: Host where
  "host_ok =
     \<lparr>cpu_Percent = Inr [12.3],
      mem_VirtualMemory = Inr \<lparr>mem_UsedPercent = 55.0\<rparr>,
      disk_Usage = (\<lambda>path. Inr \<lparr>disk_UsedPercent = 80.0\<rparr>),
      net_IOCounters = Inr [\<lparr>BytesSent = 100, BytesRecv = 200\<rparr>],
      process_Processes = Inr [proc_x]\<rparr>"

text \<open>The same host with a failing disk read.\<close>

definition disk_error :: go_error where
  "disk_error = ErrorString ''no such file or directory''"

definition host_disk_fails :: Host where
  "host_disk_fails = host_ok\<lparr>disk_Usage := (\<lambda>path. Inl disk_error)\<rparr>"

text \<open>A process whose CPU read fails, and a host that lists it between two others.\<close>

definition proc_gone :: Process where
  "proc_gone = proc_x\<lparr>Pid := 11, proc_CPUPercent := Inl (ErrorString ''process does not exist'')\<rparr>"

definition host_three :: Host where
  "host_three = host_ok\<lparr>process_Processes := Inr [proc_x, proc_gone, proc_x\<lparr>Pid := 12\<rparr>]\<rparr>"

text \<open>A host whose first interface has sent \<open>2^63\<close> bytes, and one with no interface.\<close>

definition host_big_counter :: Host where
  "host_big_counter =
     host_ok\<lparr>net_IOCounters := Inr [\<lparr>BytesSent = 9223372036854775808, BytesRecv = 0\<rparr>]\<rparr>"

definition host_no_interface :: Host where
  "host_no_interface = host_ok\<lparr>net_IOCounters := Inr []\<rparr>"

text \<open>A fresh response writer of the server, and requests.\<close>

definition new_writer :: ResponseWriter where
  "new_writer = \<lparr>Header = Map.empty, StatusCode = None, Body = [], Flushed = 0, Flusher = True\<rparr>"

definition get_request :: Request where
  "get_request = \<lparr>Method = ''GET''\<rparr>"

definition post_request :: Request where
  "post_request = \<lparr>Method = ''POST''\<rparr>"

text \<open>Scheduling points: a tick alone, the cancellation alone, and both at once with the
  runtime choosing the tick.\<close>

definition tick_point :: "Host \<Rightarrow> sched" where
  "tick_point h = \<lparr>done_ready = False, tick_ready = True, pick = ticker_C, host = h\<rparr>"

definition done_point :: sched where
  "done_point = \<lparr>done_ready = True, tick_ready = False, pick = ctx_Done, host = host_ok\<rparr>"

definition both_pick_tick :: sched where
  "both_pick_tick = \<lparr>done_ready = True, tick_ready = True, pick = ticker_C, host = host_ok\<rparr>"

definition both_pick_done :: sched where
  "both_pick_done = \<lparr>done_ready = True, tick_ready = True, pick = ctx_Done, host = host_ok\<rparr>"

text \<open>The \<open>stats\<close> event and the \<open>error\<close> event as the handler frames them.\<close>

definition stats_event :: "SystemStats \<Rightarrow> chunk list" where
  "stats_event stats =
     [Text (''event: stats'' @ LF @ ''data: ''), JSONLine (Marshal_SystemStats stats), Text (LF @ LF)]"

definition error_event :: "go_error \<Rightarrow> chunk list" where
  "error_event err = [Text (''event: error'' @ LF @ ''data: '' @ Error err @ LF @ LF)]"

text \<open>The snapshot of \<open>host_ok\<close>, and a host whose memory read fails.\<close>

definition stats_ok :: SystemStats where
  "stats_ok =
     \<lparr>CPUUsage = 12.3, MemUsage = 55, DiskUsage = 80, NetTraffic = 300,
      Processes = [\<lparr>PID = 10, Name = ''x'', CPUPercent = 1, MemoryUsage = 2\<rparr>]\<rparr>"

definition mem_error :: go_error where
  "mem_error = ErrorString ''permission denied''"

definition host_mem_fails :: Host where
  "host_mem_fails = host_ok\<lparr>mem_VirtualMemory := Inl mem_error\<rparr>"

text \<open>The event a tick writes for what \<open>getStats\<close> returned.\<close>

definition tick_event :: "go_error + SystemStats \<Rightarrow> chunk list" where
  "tick_event res = (case res of Inl err \<Rightarrow> error_event err | Inr stats \<Rightarrow> stats_event stats)"

text \<open>The session when the handler enters its loop: the four headers are set and the
  ticker runs.\<close>

definition stream_start :: "ResponseWriter \<Rightarrow> session" where
  "stream_start w =
     \<lparr>writer =
        Header_Set ''Access-Control-Allow-Origin'' ''*''
          (Header_Set ''Connection'' ''keep-alive''
            (Header_Set ''Cache-Control'' ''no-cache''
              (Header_Set ''Content-Type'' ''text/event-stream'' w))),
      ticker_stopped = False, control = Running\<rparr>"

section \<open>How getStats ends\<close>

lemma Unwrap_Errorf_w: "Unwrap (Errorf_w msg c) = Some c"
  by (simp add: Errorf_w_def)

lemma Error_Errorf_w: "Error (Errorf_w msg c) = msg @ Error c"
  by (simp add: Errorf_w_def)

lemma sublist_Errorf_w: "sublist (Error c) (Error (Errorf_w msg c) @ rest)"
  unfolding Error_Errorf_w sublist_def by (intro exI [of _ msg] exI [of _ rest]) simp

lemma sublist_Errorf_w_nil: "sublist (Error c) (Error (Errorf_w msg c))"
  using sublist_Errorf_w [of c msg "[]"] by simp

lemma getStats_cpu_fails:
  "cpu_Percent h = Inl c \<Longrightarrow> getStats h = Inl (Errorf_w ''error getting CPU stats: '' c)"
  by (simp add: getStats_def)

lemma getStats_cpu_empty:
  "cpu_Percent h = Inr [] \<Longrightarrow> getStats h = Inl (Errorf ''no CPU statistics available'')"
  by (simp add: getStats_def)

lemma getStats_mem_fails:
  "cpu_Percent h = Inr (x # xs) \<Longrightarrow> mem_VirtualMemory h = Inl c \<Longrightarrow>
   getStats h = Inl (Errorf_w ''error getting memory stats: '' c)"
  by (simp add: getStats_def)

lemma getStats_disk_fails:
  "cpu_Percent h = Inr (x # xs) \<Longrightarrow> mem_VirtualMemory h = Inr m \<Longrightarrow> disk_Usage h ''/'' = Inl c \<Longrightarrow>
   getStats h = Inl (Errorf_w ''error getting disk stats: '' c)"
  by (simp add: getStats_def)

lemma getStats_net_fails:
  "cpu_Percent h = Inr (x # xs) \<Longrightarrow> mem_VirtualMemory h = Inr m \<Longrightarrow> disk_Usage h ''/'' = Inr d \<Longrightarrow>
   net_IOCounters h = Inl c \<Longrightarrow>
   getStats h = Inl (Errorf_w ''error getting network stats: '' c)"
  by (simp add: getStats_def)

lemma getStats_net_empty:
  "cpu_Percent h = Inr (x # xs) \<Longrightarrow> mem_VirtualMemory h = Inr m \<Longrightarrow> disk_Usage h ''/'' = Inr d \<Longrightarrow>
   net_IOCounters h = Inr [] \<Longrightarrow>
   getStats h = Inl (Errorf ''no network statistics available'')"
  by (simp add: getStats_def)

lemma getStats_procs_fail:
  "cpu_Percent h = Inr (x # xs) \<Longrightarrow> mem_VirtualMemory h = Inr m \<Longrightarrow> disk_Usage h ''/'' = Inr d \<Longrightarrow>
   net_IOCounters h = Inr (n # ns) \<Longrightarrow> process_Processes h = Inl c \<Longrightarrow>
   getStats h = Inl (Errorf_w ''error getting process list: '' c)"
  by (simp add: getStats_def)

lemma getStats_success:
  "cpu_Percent h = Inr (x # xs) \<Longrightarrow> mem_VirtualMemory h = Inr m \<Longrightarrow> disk_Usage h ''/'' = Inr d \<Longrightarrow>
   net_IOCounters h = Inr (n # ns) \<Longrightarrow> process_Processes h = Inr procs \<Longrightarrow>
   getStats h =
     Inr \<lparr>CPUUsage = x, MemUsage = mem_UsedPercent m, DiskUsage = disk_UsedPercent d,
          NetTraffic = BytesRecv n + BytesSent n, Processes = collect [] procs\<rparr>"
  by (simp add: getStats_def)

text \<open>Every host falls under exactly one of the eight outcomes above.\<close>

lemma Host_cases:
  obtains (cpu_fails) c where "cpu_Percent h = Inl c"
  | (cpu_empty) "cpu_Percent h = Inr []"
  | (mem_fails) x xs c where "cpu_Percent h = Inr (x # xs)" "mem_VirtualMemory h = Inl c"
  | (disk_fails) x xs m c where "cpu_Percent h = Inr (x # xs)" "mem_VirtualMemory h = Inr m"
      "disk_Usage h ''/'' = Inl c"
  | (net_fails) x xs m d c where "cpu_Percent h = Inr (x # xs)" "mem_VirtualMemory h = Inr m"
      "disk_Usage h ''/'' = Inr d" "net_IOCounters h = Inl c"
  | (net_empty) x xs m d where "cpu_Percent h = Inr (x # xs)" "mem_VirtualMemory h = Inr m"
      "disk_Usage h ''/'' = Inr d" "net_IOCounters h = Inr []"
  | (procs_fail) x xs m d n ns c where "cpu_Percent h = Inr (x # xs)" "mem_VirtualMemory h = Inr m"
      "disk_Usage h ''/'' = Inr d" "net_IOCounters h = Inr (n # ns)" "process_Processes h = Inl c"
  | (success) x xs m d n ns procs where "cpu_Percent h = Inr (x # xs)" "mem_VirtualMemory h = Inr m"
      "disk_Usage h ''/'' = Inr d" "net_IOCounters h = Inr (n # ns)" "process_Processes h = Inr procs"
proof (cases "cpu_Percent h")
  case (Inl c)
  then show ?thesis by (rule cpu_fails)
next
  case cpu: (Inr cpus)
  show ?thesis
  proof (cases cpus)
    case Nil
    with cpu show ?thesis by (simp add: cpu_empty)
  next
    case (Cons x xs)
    with cpu have c: "cpu_Percent h = Inr (x # xs)" by simp
    show ?thesis
    proof (cases "mem_VirtualMemory h")
      case (Inl e)
      with c show ?thesis by (rule mem_fails)
    next
      case m: (Inr m)
      show ?thesis
      proof (cases "disk_Usage h ''/''")
        case (Inl e)
        with c m show ?thesis by (rule disk_fails)
      next
        case d: (Inr d)
        show ?thesis
        proof (cases "net_IOCounters h")
          case (Inl e)
          with c m d show ?thesis by (rule net_fails)
        next
          case n: (Inr nets)
          show ?thesis
          proof (cases nets)
            case Nil
            with n have "net_IOCounters h = Inr []" by simp
            with c m d show ?thesis by (rule net_empty)
          next
            case (Cons n0 ns)
            with n have n': "net_IOCounters h = Inr (n0 # ns)" by simp
            show ?thesis
            proof (cases "process_Processes h")
              case (Inl e)
              with c m d n' show ?thesis by (rule procs_fail)
            next
              case (Inr procs)
              with c m d n' show ?thesis by (rule success)
            qed
          qed
        qed
      qed
    qed
  qed
qed

section \<open>The snapshot scenario\<close>

lemma bit_length_2097152: "bit_length 2097152 = 22"
  by (simp add: bit_length.simps)

lemma float32_2097152: "float32 2097152 = 2097152"
  by (simp add: float32_def bit_length_2097152)

lemma getStats_host_ok:
  "getStats host_ok =
     Inr \<lparr>CPUUsage = 12.3, MemUsage = 55, DiskUsage = 80, NetTraffic = 300,
          Processes = [\<lparr>PID = 10, Name = ''x'', CPUPercent = 1, MemoryUsage = 2\<rparr>]\<rparr>"
  by (simp add: getStats_def host_ok_def proc_x_def float32_2097152)

section \<open>The loop over the processes\<close>

lemma collect_acc: "collect acc ps = acc @ collect [] ps"
proof (induction ps arbitrary: acc)
  case Nil
  show ?case by simp
next
  case (Cons p ps)
  have a: "collect (acc @ [x]) ps = acc @ [x] @ collect [] ps" for x
    using Cons.IH [of "acc @ [x]"] by simp
  have b: "collect [x] ps = [x] @ collect [] ps" for x
    using Cons.IH [of "[x]"] by simp
  show ?case
    using Cons.IH [of acc] by (simp add: a b split: sum.splits)
qed

lemma collect_skips:
  assumes "field_failure p"
  shows "collect [] (p # ps) = collect [] ps"
  using assms by (auto simp: field_failure_def split: sum.splits)

lemma collect_keeps:
  assumes "proc_Name p = Inr n" "proc_CPUPercent p = Inr c" "proc_MemoryInfo p = Inr m"
  shows "collect [] (p # ps) =
    \<lparr>PID = Pid p, Name = n, CPUPercent = c,
     MemoryUsage = float32 (unat (RSS m)) / (1024 * 1024)\<rparr> # collect [] ps"
  using collect_acc [of "[x]" ps for x] by (simp add: assms)

lemma no_field_failure:
  assumes "\<not> field_failure p"
  obtains n c m where "proc_Name p = Inr n" "proc_CPUPercent p = Inr c" "proc_MemoryInfo p = Inr m"
proof -
  from assms have "\<not> isl (proc_Name p)" "\<not> isl (proc_CPUPercent p)" "\<not> isl (proc_MemoryInfo p)"
    by (simp_all add: field_failure_def)
  then show thesis
    by (cases "proc_Name p"; cases "proc_CPUPercent p"; cases "proc_MemoryInfo p") (auto intro: that)
qed

lemma collect_resolved:
  "list_all2 resolved (filter (\<lambda>p. \<not> field_failure p) ps) (collect [] ps)"
proof (induction ps)
  case Nil
  show ?case by simp
next
  case (Cons p ps)
  show ?case
  proof (cases "field_failure p")
    case True
    with Cons.IH show ?thesis by (simp add: collect_skips del: collect.simps)
  next
    case False
    then obtain n c m where f: "proc_Name p = Inr n" "proc_CPUPercent p = Inr c" "proc_MemoryInfo p = Inr m"
      by (rule no_field_failure)
    from False Cons.IH show ?thesis
      by (simp add: collect_keeps [OF f] resolved_def f del: collect.simps)
  qed
qed

lemma length_survivors:
  "length (filter (\<lambda>p. \<not> field_failure p) ps) = length ps - length (filter field_failure ps)"
  using sum_length_filter_compl [of field_failure ps] by simp

section \<open>Signed reading of a 64-bit sum, and the outcomes of getStats\<close>

lemma sint_plus_64:
  fixes a b :: "64 word"
  shows "sint (a + b) = (uint a + uint b + 2 ^ 63) mod 2 ^ 64 - 2 ^ 63"
proof -
  have "sint (a + b) = signed_take_bit 63 (uint (a + b))"
    by (simp add: sint_uint)
  also have "\<dots> = signed_take_bit 63 (take_bit 64 (uint a + uint b))"
    by (simp add: uint_word_ariths take_bit_eq_mod)
  also have "\<dots> = signed_take_bit 63 (uint a + uint b)"
    by (simp add: signed_take_bit_take_bit)
  also have "\<dots> = (uint a + uint b + 2 ^ 63) mod 2 ^ 64 - 2 ^ 63"
    by (simp add: signed_take_bit_eq_take_bit_shift take_bit_eq_mod)
  finally show ?thesis .
qed

lemma sint_plus_64_small:
  fixes a b :: "64 word"
  assumes "uint a + uint b < 2 ^ 63"
  shows "sint (a + b) = uint a + uint b"
proof -
  have "0 \<le> uint a + uint b" by simp
  with assms have "(uint a + uint b + 2 ^ 63) mod 2 ^ 64 = uint a + uint b + 2 ^ 63"
    by (intro mod_pos_pos_trivial) simp_all
  then show ?thesis by (simp add: sint_plus_64)
qed

lemma getStats_Inr_cases:
  assumes "getStats h = Inr stats"
  obtains x xs m d n ns procs where "cpu_Percent h = Inr (x # xs)" "mem_VirtualMemory h = Inr m"
      "disk_Usage h ''/'' = Inr d" "net_IOCounters h = Inr (n # ns)" "process_Processes h = Inr procs"
proof (cases h rule: Host_cases)
  case (cpu_fails c)
  with assms show ?thesis by (simp add: getStats_cpu_fails)
next
  case cpu_empty
  with assms show ?thesis by (simp add: getStats_cpu_empty)
next
  case (mem_fails x xs c)
  with assms show ?thesis by (simp add: getStats_mem_fails [OF mem_fails])
next
  case (disk_fails x xs m c)
  with assms show ?thesis by (simp add: getStats_disk_fails [OF disk_fails])
next
  case (net_fails x xs m d c)
  with assms show ?thesis by (simp add: getStats_net_fails [OF net_fails])
next
  case (net_empty x xs m d)
  with assms show ?thesis by (simp add: getStats_net_empty [OF net_empty])
next
  case (procs_fail x xs m d n ns c)
  with assms show ?thesis by (simp add: getStats_procs_fail [OF procs_fail])
next
  case (success x xs m d n ns procs)
  then show ?thesis by (rule that)
qed

lemma getStats_Inl_cases:
  assumes "getStats h = Inl e"
  shows "(\<exists>msg. e = Errorf msg) \<or> (\<exists>msg c. e = Errorf_w msg c)"
proof (cases h rule: Host_cases)
  case (cpu_fails c)
  with assms show ?thesis by (auto simp: getStats_cpu_fails)
next
  case cpu_empty
  with assms show ?thesis by (auto simp: getStats_cpu_empty)
next
  case (mem_fails x xs c)
  with assms show ?thesis by (auto simp: getStats_mem_fails [OF mem_fails])
next
  case (disk_fails x xs m c)
  with assms show ?thesis by (auto simp: getStats_disk_fails [OF disk_fails])
next
  case (net_fails x xs m d c)
  with assms show ?thesis by (auto simp: getStats_net_fails [OF net_fails])
next
  case (net_empty x xs m d)
  with assms show ?thesis by (auto simp: getStats_net_empty [OF net_empty])
next
  case (procs_fail x xs m d n ns c)
  with assms show ?thesis by (auto simp: getStats_procs_fail [OF procs_fail])
next
  case (success x xs m d n ns procs)
  with assms show ?thesis by (simp add: getStats_success [OF success])
qed

lemma getStats_no_interface:
  assumes "net_IOCounters h = Inr []"
  shows "isl (getStats h)"
proof (cases "getStats h")
  case (Inl e)
  then show ?thesis by simp
next
  case (Inr stats)
  then show ?thesis
    using assms by (elim getStats_Inr_cases) simp
qed

section \<open>What http.Error leaves in the response\<close>

lemma StatusCode_http_Error:
  "StatusCode w = None \<Longrightarrow> StatusCode (http_Error w msg code) = Some code"
  by (simp add: http_Error_def Write_def WriteHeader_def Header_Set_def Header_Del_def)

lemma Body_http_Error: "Body (http_Error w msg code) = Body w @ [Text (msg @ LF)]"
  by (simp add: http_Error_def Write_def WriteHeader_def Header_Set_def Header_Del_def)

lemma Header_http_Error:
  "Header (http_Error w msg code) ''Content-Type'' = Some ''text/plain; charset=utf-8''"
  by (simp add: http_Error_def Write_def WriteHeader_def Header_Set_def Header_Del_def)

lemma statsHandler_failure_response:
  assumes "Method r = ''GET''" "getStats h = Inl e"
  shows "statsHandler h w r = http_Error w (Error e) 500"
  using assms by (simp add: statsHandler_def)

section \<open>Ticks, iterations and the loop\<close>

lemma Body_tick: "Body (writer (tick h s)) = Body (writer s) @ tick_event (getStats h)"
  by (simp add: tick_def tick_event_def error_event_def stats_event_def Write_def Encode_def
      Flush_def WriteHeader_def Let_def split: sum.splits)

lemma control_tick: "control (tick h s) = (if Flusher (writer s) then control s else Panicked)"
  by (simp add: tick_def Write_def Encode_def Flush_def WriteHeader_def Let_def split: sum.splits)

lemma Flushed_tick:
  "Flusher (writer s) \<Longrightarrow> Flushed (writer (tick h s)) = length (Body (writer (tick h s)))"
  by (simp add: tick_def Write_def Encode_def Flush_def WriteHeader_def Let_def split: sum.splits)

lemma Flusher_tick: "Flusher (writer (tick h s)) = Flusher (writer s)"
  by (simp add: tick_def Write_def Encode_def Flush_def WriteHeader_def Let_def split: sum.splits)

lemma Header_tick: "Header (writer (tick h s)) = Header (writer s)"
  by (simp add: tick_def Write_def Encode_def Flush_def WriteHeader_def Let_def split: sum.splits)

lemma ticker_stopped_tick: "ticker_stopped (tick h s) = ticker_stopped s"
  by (simp add: tick_def Write_def Encode_def Flush_def WriteHeader_def Let_def split: sum.splits)

lemma iteration_Done: "select p = Some ctx_Done \<Longrightarrow> iteration p s = s\<lparr>control := Returned\<rparr>"
  by (simp add: iteration_def)

lemma iteration_Tick: "select p = Some ticker_C \<Longrightarrow> iteration p s = tick (host p) s"
  by (simp add: iteration_def)

lemma iteration_blocked: "select p = None \<Longrightarrow> iteration p s = s"
  by (simp add: iteration_def)

lemma select_cases:
  obtains (blocked) "select p = None" | (cancelled) "select p = Some ctx_Done"
  | (ticked) "select p = Some ticker_C"
  by (cases "select p") (auto intro: select_case.exhaust)

lemma Header_iteration: "Header (writer (iteration p s)) = Header (writer s)"
  by (cases p rule: select_cases) (simp_all add: iteration_Done iteration_Tick iteration_blocked Header_tick)

lemma ticker_stopped_iteration: "ticker_stopped (iteration p s) = ticker_stopped s"
  by (cases p rule: select_cases)
    (simp_all add: iteration_Done iteration_Tick iteration_blocked ticker_stopped_tick)

lemma loop_stopped: "control s \<noteq> Running \<Longrightarrow> loop s ps = s"
  by (cases ps) simp_all

lemma loop_Cons: "control s = Running \<Longrightarrow> loop s (p # ps) = loop (iteration p s) ps"
  by simp

lemma loop_append: "loop s (qs @ ps) = loop (loop s qs) ps"
proof (induction qs arbitrary: s)
  case Nil
  show ?case by simp
next
  case (Cons q qs)
  show ?case
  proof (cases "control s = Running")
    case True
    then show ?thesis by (simp add: Cons.IH)
  next
    case False
    then show ?thesis by (simp add: loop_stopped)
  qed
qed

lemma Header_loop: "Header (writer (loop s ps)) = Header (writer s)"
  by (induction ps arbitrary: s) (simp_all add: Header_iteration)

lemma ticker_stopped_loop: "ticker_stopped (loop s ps) = ticker_stopped s"
  by (induction ps arbitrary: s) (simp_all add: ticker_stopped_iteration)

lemma sseHandler_loop:
  "sseHandler w r ps =
     (if control (loop (stream_start w) ps) = Running then loop (stream_start w) ps
      else (loop (stream_start w) ps)\<lparr>ticker_stopped := True\<rparr>)"
  by (simp add: sseHandler_def stream_start_def Let_def)

lemma control_sseHandler: "control (sseHandler w r ps) = control (loop (stream_start w) ps)"
  by (simp add: sseHandler_loop)

lemma writer_sseHandler: "writer (sseHandler w r ps) = writer (loop (stream_start w) ps)"
  by (simp add: sseHandler_loop)

lemma ticker_stopped_sseHandler:
  "ticker_stopped (sseHandler w r ps) = (control (sseHandler w r ps) \<noteq> Running)"
  by (simp add: sseHandler_loop ticker_stopped_loop stream_start_def)

lemma tick_event_not_Nil: "tick_event res \<noteq> []"
  by (cases res) (simp_all add: tick_event_def error_event_def stats_event_def)

lemma stream_start_simps:
  "control (stream_start w) = Running" "ticker_stopped (stream_start w) = False"
  "Body (writer (stream_start w)) = Body w" "Flusher (writer (stream_start w)) = Flusher w"
  "StatusCode (writer (stream_start w)) = StatusCode w"
  by (simp_all add: stream_start_def Header_Set_def)

lemma select_points:
  "select (tick_point h) = Some ticker_C" "select done_point = Some ctx_Done"
  "select both_pick_tick = Some ticker_C" "select both_pick_done = Some ctx_Done"
  by (simp_all add: select_def tick_point_def done_point_def both_pick_tick_def both_pick_done_def)

lemma host_points:
  "host (tick_point h) = h" "host both_pick_tick = host_ok" "host both_pick_done = host_ok"
  by (simp_all add: tick_point_def both_pick_tick_def both_pick_done_def)

lemma getStats_stats_ok: "getStats host_ok = Inr stats_ok"
  by (simp add: getStats_host_ok stats_ok_def)

section \<open>The listen port\<close>

text \<open>
  C9. When the variable \<open>PORT\<close> is absent or empty the server is built with port 3000
  and listens on \<open>:3000\<close>; otherwise it is built with the variable's value and listens
  on it. The address is read from the port given at construction.
\<close>

theorem main_listens_on_port:
  "(env ''PORT'' = None \<or> env ''PORT'' = Some [] \<longrightarrow>
      port (main_server env) = ''3000'' \<and> Start_Addr (main_server env) = '':3000'') \<and>
   (\<forall>v. env ''PORT'' = Some v \<and> v \<noteq> [] \<longrightarrow>
      port (main_server env) = v \<and> Start_Addr (main_server env) = '':'' @ v)"
  by (auto simp: main_server_def NewServer_def Getenv_def Start_Addr_def defaultPort_def)

theorem main_listens_on_port_witness:
  "Start_Addr (main_server Map.empty) = '':3000'' \<and>
   Start_Addr (main_server [''PORT'' \<mapsto> ''8080'']) = '':8080''"
  using main_listens_on_port [of Map.empty] main_listens_on_port [of "[''PORT'' \<mapsto> ''8080'']"]
  by simp

section \<open>Core metrics fail as a whole\<close>

text \<open>
  C1. When the CPU read, the memory read, the disk read or the read of the network
  counters fails, or the CPU read returns no value, \<open>getStats\<close> returns an error and
  no \<open>SystemStats\<close>. The error wraps the error of the read that failed, whose message
  is part of its own message; for an empty CPU result, where no read failed, it is the
  plain error "no CPU statistics available".
\<close>

theorem getStats_core_failure:
  assumes "isl (cpu_Percent h) \<or> cpu_Percent h = Inr [] \<or> isl (mem_VirtualMemory h) \<or>
           isl (disk_Usage h ''/'') \<or> isl (net_IOCounters h)"
  shows "\<exists>e. getStats h = Inl e \<and>
           ((cpu_Percent h = Inr [] \<and> e = ErrorString ''no CPU statistics available'') \<or>
            (\<exists>c. (cpu_Percent h = Inl c \<or> mem_VirtualMemory h = Inl c \<or>
                  disk_Usage h ''/'' = Inl c \<or> net_IOCounters h = Inl c) \<and>
                 Unwrap e = Some c \<and> sublist (Error c) (Error e)))"
proof (cases h rule: Host_cases)
  case (cpu_fails c)
  then show ?thesis
    using getStats_cpu_fails [of h c] by (auto simp: Unwrap_Errorf_w sublist_Errorf_w_nil)
next
  case cpu_empty
  then show ?thesis
    using getStats_cpu_empty [of h] by (simp add: Errorf_def)
next
  case (mem_fails x xs c)
  then show ?thesis
    using getStats_mem_fails [of h x xs c] by (auto simp: Unwrap_Errorf_w sublist_Errorf_w_nil)
next
  case (disk_fails x xs m c)
  then show ?thesis
    using getStats_disk_fails [of h x xs m c] by (auto simp: Unwrap_Errorf_w sublist_Errorf_w_nil)
next
  case (net_fails x xs m d c)
  then show ?thesis
    using getStats_net_fails [of h x xs m d c] by (auto simp: Unwrap_Errorf_w sublist_Errorf_w_nil)
next
  case (net_empty x xs m d)
  with assms show ?thesis by simp
next
  case (procs_fail x xs m d n ns c)
  with assms show ?thesis by simp
next
  case (success x xs m d n ns procs)
  with assms show ?thesis by simp
qed

theorem getStats_core_failure_witness:
  "isl (disk_Usage host_disk_fails ''/'') \<and>
   (\<exists>e. getStats host_disk_fails = Inl e \<and> Unwrap e = Some disk_error \<and>
        sublist (Error disk_error) (Error e))"
proof -
  have d: "isl (disk_Usage host_disk_fails ''/'')"
    by (simp add: host_disk_fails_def)
  have c: "cpu_Percent host_disk_fails = Inr [12.3]"
      "mem_VirtualMemory host_disk_fails = Inr \<lparr>mem_UsedPercent = 55\<rparr>"
      "net_IOCounters host_disk_fails = Inr [\<lparr>BytesSent = 100, BytesRecv = 200\<rparr>]"
      "disk_Usage host_disk_fails ''/'' = Inl disk_error"
    by (simp_all add: host_disk_fails_def host_ok_def)
  from getStats_core_failure [of host_disk_fails] d
  have "\<exists>e. getStats host_disk_fails = Inl e \<and> Unwrap e = Some disk_error \<and>
        sublist (Error disk_error) (Error e)"
    by (auto simp: c)
  with d show ?thesis by simp
qed

section \<open>Process enumeration is best effort\<close>

text \<open>
  C2. When the core reads succeed and the process list has N processes of which M have a
  failing name, CPU percent or memory read, \<open>getStats\<close> returns a \<open>SystemStats\<close>
  whose \<open>Processes\<close> has N - M entries; they are the processes without a failure, in
  the order of the enumeration, and each entry carries the pid and the values that the
  three reads of its process returned (the memory in megabytes).
\<close>

theorem getStats_processes:
  assumes "cpu_Percent h = Inr (x # xs)" "mem_VirtualMemory h = Inr m" "disk_Usage h ''/'' = Inr d"
    "net_IOCounters h = Inr (n # ns)" "process_Processes h = Inr procs"
  shows "\<exists>stats. getStats h = Inr stats \<and>
           length (Processes stats) = length procs - length (filter field_failure procs) \<and>
           list_all2 resolved (filter (\<lambda>p. \<not> field_failure p) procs) (Processes stats)"
proof -
  have r: "list_all2 resolved (filter (\<lambda>p. \<not> field_failure p) procs) (collect [] procs)"
    by (rule collect_resolved)
  then have "length (collect [] procs) = length procs - length (filter field_failure procs)"
    using list_all2_lengthD [OF r] by (simp add: length_survivors)
  with r show ?thesis
    by (simp add: getStats_success [OF assms])
qed

theorem getStats_processes_witness:
  "\<exists>stats. getStats host_three = Inr stats \<and> length (Processes stats) = 2 \<and>
     list_all2 resolved [proc_x, proc_x\<lparr>Pid := 12\<rparr>] (Processes stats)"
proof -
  have h: "cpu_Percent host_three = Inr [12.3]"
    "mem_VirtualMemory host_three = Inr \<lparr>mem_UsedPercent = 55\<rparr>"
    "disk_Usage host_three ''/'' = Inr \<lparr>disk_UsedPercent = 80\<rparr>"
    "net_IOCounters host_three = Inr [\<lparr>BytesSent = 100, BytesRecv = 200\<rparr>]"
    "process_Processes host_three = Inr [proc_x, proc_gone, proc_x\<lparr>Pid := 12\<rparr>]"
    by (simp_all add: host_three_def host_ok_def)
  have f: "\<not> field_failure proc_x" "field_failure proc_gone" "\<not> field_failure (proc_x\<lparr>Pid := 12\<rparr>)"
    by (simp_all add: field_failure_def proc_x_def proc_gone_def)
  have k: "filter field_failure [proc_x, proc_gone, proc_x\<lparr>Pid := 12\<rparr>] = [proc_gone]"
    "filter (\<lambda>p. \<not> field_failure p) [proc_x, proc_gone, proc_x\<lparr>Pid := 12\<rparr>] =
       [proc_x, proc_x\<lparr>Pid := 12\<rparr>]"
    by (simp_all add: f)
  show ?thesis
    using getStats_processes [OF h] unfolding k by (simp add: numeral_2_eq_2)
qed


section \<open>NetTraffic\<close>

text \<open>
  C3, as stated, fails: the sum of the two \<open>uint64\<close> counters is taken in 64 bits and
  converted to \<open>int64\<close>, so for counters whose sum is \<open>2^63\<close> or more the field is
  not their sum. With \<open>BytesSent = 2^63\<close> and \<open>BytesRecv = 0\<close> it is \<open>-2^63\<close>.
\<close>

theorem NetTraffic_wraps_counterexample:
  "net_IOCounters host_big_counter = Inr [\<lparr>BytesSent = 9223372036854775808, BytesRecv = 0\<rparr>] \<and>
   uint (9223372036854775808 :: 64 word) + uint (0 :: 64 word) = 9223372036854775808 \<and>
   getStats host_big_counter = Inr (stats_ok\<lparr>NetTraffic := 9223372036854775808\<rparr>) \<and>
   sint (NetTraffic (stats_ok\<lparr>NetTraffic := 9223372036854775808\<rparr>)) = - 9223372036854775808"
  by (simp add: host_big_counter_def host_ok_def proc_x_def getStats_def float32_2097152
      stats_ok_def)

text \<open>
  C3, amended. In every \<open>SystemStats\<close> that \<open>getStats\<close> returns, \<open>NetTraffic\<close> is the
  64-bit sum of \<open>BytesSent\<close> and \<open>BytesRecv\<close> of the first counter entry read as a signed
  number; it equals their sum whenever that sum is below \<open>2^63\<close>. When the sequence of
  counters is empty, \<open>getStats\<close> returns an error.
\<close>

theorem getStats_NetTraffic:
  "(getStats h = Inr stats \<longrightarrow>
      (\<exists>n ns. net_IOCounters h = Inr (n # ns) \<and>
         NetTraffic stats = BytesSent n + BytesRecv n \<and>
         sint (NetTraffic stats) =
           (uint (BytesSent n) + uint (BytesRecv n) + 2 ^ 63) mod 2 ^ 64 - 2 ^ 63 \<and>
         (uint (BytesSent n) + uint (BytesRecv n) < 2 ^ 63 \<longrightarrow>
            sint (NetTraffic stats) = uint (BytesSent n) + uint (BytesRecv n)))) \<and>
   (net_IOCounters h = Inr [] \<longrightarrow> isl (getStats h))"
proof (intro conjI impI)
  assume s: "getStats h = Inr stats"
  then obtain x xs m d n ns procs where r: "cpu_Percent h = Inr (x # xs)" "mem_VirtualMemory h = Inr m"
      "disk_Usage h ''/'' = Inr d" "net_IOCounters h = Inr (n # ns)" "process_Processes h = Inr procs"
    by (rule getStats_Inr_cases)
  from s have t: "NetTraffic stats = BytesSent n + BytesRecv n"
    using getStats_success [OF r] by (auto simp: add.commute)
  have "sint (NetTraffic stats) = (uint (BytesSent n) + uint (BytesRecv n) + 2 ^ 63) mod 2 ^ 64 - 2 ^ 63"
    unfolding t by (rule sint_plus_64)
  moreover have "uint (BytesSent n) + uint (BytesRecv n) < 2 ^ 63 \<longrightarrow>
      sint (NetTraffic stats) = uint (BytesSent n) + uint (BytesRecv n)"
    unfolding t by (simp add: sint_plus_64_small)
  ultimately show "\<exists>n ns. net_IOCounters h = Inr (n # ns) \<and>
         NetTraffic stats = BytesSent n + BytesRecv n \<and>
         sint (NetTraffic stats) =
           (uint (BytesSent n) + uint (BytesRecv n) + 2 ^ 63) mod 2 ^ 64 - 2 ^ 63 \<and>
         (uint (BytesSent n) + uint (BytesRecv n) < 2 ^ 63 \<longrightarrow>
            sint (NetTraffic stats) = uint (BytesSent n) + uint (BytesRecv n))"
    using r(4) t by blast
next
  assume "net_IOCounters h = Inr []"
  then show "isl (getStats h)" by (rule getStats_no_interface)
qed


theorem getStats_NetTraffic_witness:
  "getStats host_ok = Inr \<lparr>CPUUsage = 12.3, MemUsage = 55, DiskUsage = 80, NetTraffic = 300,
       Processes = [\<lparr>PID = 10, Name = ''x'', CPUPercent = 1, MemoryUsage = 2\<rparr>]\<rparr> \<and>
   sint (300 :: 64 word) = uint (100 :: 64 word) + uint (200 :: 64 word) \<and>
   net_IOCounters host_no_interface = Inr [] \<and> isl (getStats host_no_interface)"
proof -
  have g: "getStats host_ok = Inr \<lparr>CPUUsage = 12.3, MemUsage = 55, DiskUsage = 80, NetTraffic = 300,
       Processes = [\<lparr>PID = 10, Name = ''x'', CPUPercent = 1, MemoryUsage = 2\<rparr>]\<rparr>"
    by (rule getStats_host_ok)
  have n: "net_IOCounters host_no_interface = Inr []"
    by (simp add: host_no_interface_def)
  from getStats_NetTraffic [of host_no_interface] n have "isl (getStats host_no_interface)"
    by blast
  with g n show ?thesis by simp
qed

section \<open>The snapshot endpoint on failure\<close>

text \<open>
  C8. For a GET request on a response not yet written to, when \<open>getStats\<close> fails the
  response has status 500, content type \<open>text/plain\<close>, and its body is the error's
  message followed by a newline; the message of the error that \<open>getStats\<close> wrapped is
  part of the body. In particular, when the CPU and memory reads succeed and the disk read
  fails, the body contains the disk error's message.
\<close>

theorem statsHandler_failure:
  assumes "Method r = ''GET''" "getStats h = Inl e" "StatusCode w = None"
  shows "StatusCode (statsHandler h w r) = Some 500 \<and>
         Header (statsHandler h w r) ''Content-Type'' = Some ''text/plain; charset=utf-8'' \<and>
         Body (statsHandler h w r) = Body w @ [Text (Error e @ LF)] \<and>
         (\<forall>c. Unwrap e = Some c \<longrightarrow> sublist (Error c) (Error e @ LF)) \<and>
         (\<forall>x xs m c. cpu_Percent h = Inr (x # xs) \<and> mem_VirtualMemory h = Inr m \<and>
             disk_Usage h ''/'' = Inl c \<longrightarrow>
             e = Errorf_w ''error getting disk stats: '' c \<and> sublist (Error c) (Error e @ LF))"
proof -
  have r: "statsHandler h w r = http_Error w (Error e) 500"
    using assms(1,2) by (rule statsHandler_failure_response)
  have u: "sublist (Error c) (Error e @ LF)" if "Unwrap e = Some c" for c
  proof -
    from getStats_Inl_cases [OF assms(2)] that obtain msg where "e = Errorf_w msg c"
      by (auto simp: Errorf_def Errorf_w_def)
    then show ?thesis by (simp add: sublist_Errorf_w)
  qed
  have d: "e = Errorf_w ''error getting disk stats: '' c \<and> sublist (Error c) (Error e @ LF)"
    if "cpu_Percent h = Inr (x # xs)" "mem_VirtualMemory h = Inr m" "disk_Usage h ''/'' = Inl c"
    for x xs m c
  proof -
    from getStats_disk_fails [OF that] assms(2) have "e = Errorf_w ''error getting disk stats: '' c"
      by simp
    then show ?thesis by (simp add: sublist_Errorf_w)
  qed
  have s: "StatusCode (statsHandler h w r) = Some 500"
    "Header (statsHandler h w r) ''Content-Type'' = Some ''text/plain; charset=utf-8''"
    "Body (statsHandler h w r) = Body w @ [Text (Error e @ LF)]"
    unfolding r
    by (simp_all add: StatusCode_http_Error [OF assms(3)] Body_http_Error Header_http_Error)
  from s u d show ?thesis by blast
qed

theorem statsHandler_failure_witness:
  "Method get_request = ''GET'' \<and>
   getStats host_disk_fails = Inl (Errorf_w ''error getting disk stats: '' disk_error) \<and>
   StatusCode new_writer = None \<and>
   StatusCode (statsHandler host_disk_fails new_writer get_request) = Some 500 \<and>
   Body (statsHandler host_disk_fails new_writer get_request) =
     [Text (''error getting disk stats: no such file or directory'' @ LF)] \<and>
   sublist ''no such file or directory''
     (''error getting disk stats: no such file or directory'' @ LF)"
proof -
  have c: "cpu_Percent host_disk_fails = Inr [12.3]"
      "mem_VirtualMemory host_disk_fails = Inr \<lparr>mem_UsedPercent = 55\<rparr>"
      "disk_Usage host_disk_fails ''/'' = Inl disk_error"
    by (simp_all add: host_disk_fails_def host_ok_def)
  have g: "getStats host_disk_fails = Inl (Errorf_w ''error getting disk stats: '' disk_error)"
    by (rule getStats_disk_fails [OF c])
  have m: "Method get_request = ''GET''" by (simp add: get_request_def)
  have n: "StatusCode new_writer = None" "Body new_writer = []" by (simp_all add: new_writer_def)
  have e: "Error (Errorf_w ''error getting disk stats: '' disk_error) =
      ''error getting disk stats: no such file or directory''"
    by (simp add: Errorf_w_def disk_error_def)
  have u: "Unwrap (Errorf_w ''error getting disk stats: '' disk_error) = Some disk_error"
    by (rule Unwrap_Errorf_w)
  have de: "Error disk_error = ''no such file or directory''"
    by (simp add: disk_error_def)
  from statsHandler_failure [OF m g n(1)] u
  have "StatusCode (statsHandler host_disk_fails new_writer get_request) = Some 500"
    "Body (statsHandler host_disk_fails new_writer get_request) =
       Body new_writer @ [Text (Error (Errorf_w ''error getting disk stats: '' disk_error) @ LF)]"
    "sublist (Error disk_error) (Error (Errorf_w ''error getting disk stats: '' disk_error) @ LF)"
    by blast+
  then show ?thesis
    unfolding e de n using m g n(1) by simp
qed

section \<open>The snapshot endpoint on success\<close>

text \<open>
  C6. In the snapshot scenario (CPU 12.3, memory 55.0, disk 80.0, 100 bytes sent and 200
  received, one process with pid 10, name "x", CPU 1.0 and an RSS of 2097152 bytes) the
  response to GET has status 200, content type \<open>application/json\<close>, and its body is the
  JSON object of the scenario; the RSS divided by 1048576 is 2.0.
\<close>

theorem statsHandler_snapshot_scenario:
  "StatusCode (statsHandler host_ok new_writer get_request) = Some 200 \<and>
   Header (statsHandler host_ok new_writer get_request) ''Content-Type'' = Some ''application/json'' \<and>
   Body (statsHandler host_ok new_writer get_request) =
     [JSONLine (JObject
        [(''cpuUsage'', JNumber 12.3), (''memUsage'', JNumber 55.0), (''diskUsage'', JNumber 80.0),
         (''netTraffic'', JNumber 300),
         (''processes'', JArray [JObject
            [(''pid'', JNumber 10), (''name'', JString ''x''), (''cpuPercent'', JNumber 1.0),
             (''memoryUsage'', JNumber 2.0)]])])] \<and>
   float32 2097152 / 1048576 = 2.0"
  by (simp add: statsHandler_def get_request_def getStats_host_ok new_writer_def Encode_def
      Write_def WriteHeader_def Header_Set_def Marshal_SystemStats_def Marshal_ProcessInfo_def
      float32_2097152)

section \<open>A failed sample does not end the stream\<close>

text \<open>
  C4. In a running session whose writer can flush, a tick on which \<open>getStats\<close> fails
  writes one event, \<open>event: error\<close> with the error's message as data, flushes it, and
  leaves the handler running: the loop goes on with the rest of the schedule, and a later
  tick on which \<open>getStats\<close> succeeds writes its \<open>stats\<close> event after the error event.
\<close>

theorem failed_tick_continues:
  assumes "control s = Running" "Flusher (writer s)" "select p = Some ticker_C"
    "getStats (host p) = Inl err"
  shows "Body (writer (iteration p s)) =
           Body (writer s) @ [Text (''event: error'' @ LF @ ''data: '' @ Error err @ LF @ LF)] \<and>
         Flushed (writer (iteration p s)) = length (Body (writer (iteration p s))) \<and>
         control (iteration p s) = Running \<and>
         loop s (p # ps) = loop (iteration p s) ps \<and>
         (\<forall>p' stats. select p' = Some ticker_C \<and> getStats (host p') = Inr stats \<longrightarrow>
            Body (writer (loop s [p, p'])) =
              Body (writer s) @ error_event err @ stats_event stats \<and>
            Flushed (writer (loop s [p, p'])) = length (Body (writer (loop s [p, p']))) \<and>
            control (loop s [p, p']) = Running)"
proof -
  have i: "iteration p s = tick (host p) s"
    using assms(3) by (rule iteration_Tick)
  have b: "Body (writer (iteration p s)) = Body (writer s) @ error_event err"
    by (simp add: i Body_tick assms(4) tick_event_def)
  have f: "Flushed (writer (iteration p s)) = length (Body (writer (iteration p s)))"
    unfolding i using assms(2) by (rule Flushed_tick)
  have c: "control (iteration p s) = Running"
    by (simp add: i control_tick assms(1,2))
  have fl: "Flusher (writer (iteration p s))"
    by (simp add: i Flusher_tick assms(2))
  have l: "loop s (p # ps) = loop (iteration p s) ps" for ps
    using assms(1) by (rule loop_Cons)
  have n: "Body (writer (loop s [p, p'])) = Body (writer s) @ error_event err @ stats_event stats \<and>
      Flushed (writer (loop s [p, p'])) = length (Body (writer (loop s [p, p']))) \<and>
      control (loop s [p, p']) = Running"
    if "select p' = Some ticker_C" "getStats (host p') = Inr stats" for p' stats
  proof -
    have "loop s [p, p'] = tick (host p') (iteration p s)"
      by (simp add: assms(1) c iteration_Tick [OF that(1)])
    then show ?thesis
      using Flushed_tick [OF fl, of "host p'"]
      by (simp add: Body_tick that(2) tick_event_def b control_tick fl c)
  qed
  from b f c l n show ?thesis
    by (simp add: error_event_def)
qed

theorem failed_tick_continues_witness:
  "Body (writer (loop (stream_start new_writer) [tick_point host_mem_fails, tick_point host_ok])) =
     [Text (''event: error'' @ LF @ ''data: error getting memory stats: permission denied'' @ LF @ LF),
      Text (''event: stats'' @ LF @ ''data: ''), JSONLine (Marshal_SystemStats stats_ok),
      Text (LF @ LF)] \<and>
   control (loop (stream_start new_writer) [tick_point host_mem_fails, tick_point host_ok]) = Running"
proof -
  have s: "control (stream_start new_writer) = Running" "Flusher (writer (stream_start new_writer))"
    "Body (writer (stream_start new_writer)) = []"
    by (simp_all add: stream_start_def new_writer_def Header_Set_def)
  have p: "select (tick_point host_mem_fails) = Some ticker_C" "select (tick_point host_ok) = Some ticker_C"
    "host (tick_point host_mem_fails) = host_mem_fails" "host (tick_point host_ok) = host_ok"
    by (simp_all add: select_def tick_point_def)
  have c: "cpu_Percent host_mem_fails = Inr [12.3]" "mem_VirtualMemory host_mem_fails = Inl mem_error"
    by (simp_all add: host_mem_fails_def host_ok_def)
  have g: "getStats (host (tick_point host_mem_fails)) =
      Inl (Errorf_w ''error getting memory stats: '' mem_error)"
    unfolding p by (rule getStats_mem_fails [OF c])
  have g': "getStats (host (tick_point host_ok)) = Inr stats_ok"
    unfolding p by (simp add: getStats_host_ok stats_ok_def)
  from failed_tick_continues [OF s(1,2) p(1) g, of Nil] p(2) g'
  have "Body (writer (loop (stream_start new_writer) [tick_point host_mem_fails, tick_point host_ok])) =
      Body (writer (stream_start new_writer)) @
        error_event (Errorf_w ''error getting memory stats: '' mem_error) @ stats_event stats_ok"
    "control (loop (stream_start new_writer) [tick_point host_mem_fails, tick_point host_ok]) = Running"
    by blast+
  then show ?thesis
    by (simp add: s(3) error_event_def stats_event_def Errorf_w_def mem_error_def)
qed

section \<open>Cancellation closes the session\<close>

text \<open>
  C5. When the select of a running session takes the cancellation case, the handler
  returns: whatever the schedule holds afterwards, nothing more is written and the ticker
  is stopped. Once the handler has left its loop no later scheduling point changes the
  session. The ticker is stopped exactly when the handler has left the loop (by return or
  by panic), so no exit leaves it running.
\<close>

theorem cancellation_closes:
  "(control (sseHandler w r qs) = Running \<and> select p = Some ctx_Done \<longrightarrow>
      control (sseHandler w r (qs @ p # ps)) = Returned \<and>
      ticker_stopped (sseHandler w r (qs @ p # ps)) \<and>
      writer (sseHandler w r (qs @ p # ps)) = writer (sseHandler w r qs)) \<and>
   (control (sseHandler w r qs) \<noteq> Running \<longrightarrow>
      sseHandler w r (qs @ ps) = sseHandler w r qs) \<and>
   (ticker_stopped (sseHandler w r qs) \<longleftrightarrow> control (sseHandler w r qs) \<noteq> Running)"
proof (intro conjI impI)
  assume a: "control (sseHandler w r qs) = Running \<and> select p = Some ctx_Done"
  then have c: "control (loop (stream_start w) qs) = Running"
    by (simp add: control_sseHandler)
  have "loop (stream_start w) (qs @ p # ps) = loop (iteration p (loop (stream_start w) qs)) ps"
    by (simp add: loop_append c)
  also have "\<dots> = loop ((loop (stream_start w) qs)\<lparr>control := Returned\<rparr>) ps"
    using a by (simp add: iteration_Done)
  also have "\<dots> = (loop (stream_start w) qs)\<lparr>control := Returned\<rparr>"
    by (simp add: loop_stopped)
  finally have l: "loop (stream_start w) (qs @ p # ps) = (loop (stream_start w) qs)\<lparr>control := Returned\<rparr>" .
  show "control (sseHandler w r (qs @ p # ps)) = Returned"
    by (simp add: control_sseHandler l)
  then show "ticker_stopped (sseHandler w r (qs @ p # ps))"
    by (simp add: ticker_stopped_sseHandler)
  show "writer (sseHandler w r (qs @ p # ps)) = writer (sseHandler w r qs)"
    by (simp add: writer_sseHandler l)
next
  assume "control (sseHandler w r qs) \<noteq> Running"
  then have "control (loop (stream_start w) qs) \<noteq> Running"
    by (simp add: control_sseHandler)
  then have "loop (stream_start w) (qs @ ps) = loop (stream_start w) qs"
    by (simp add: loop_append loop_stopped)
  then show "sseHandler w r (qs @ ps) = sseHandler w r qs"
    by (simp add: sseHandler_loop)
next
  show "ticker_stopped (sseHandler w r qs) \<longleftrightarrow> control (sseHandler w r qs) \<noteq> Running"
    by (rule ticker_stopped_sseHandler)
qed

theorem cancellation_closes_witness:
  "control (sseHandler new_writer get_request [tick_point host_ok]) = Running \<and>
   select done_point = Some ctx_Done \<and>
   control (sseHandler new_writer get_request [tick_point host_ok, done_point, tick_point host_ok]) =
     Returned \<and>
   ticker_stopped (sseHandler new_writer get_request [tick_point host_ok, done_point, tick_point host_ok]) \<and>
   Body (writer (sseHandler new_writer get_request [tick_point host_ok, done_point, tick_point host_ok])) =
     stats_event stats_ok"
proof -
  have f: "Flusher new_writer" "Body new_writer = []"
    by (simp_all add: new_writer_def)
  have r: "control (sseHandler new_writer get_request [tick_point host_ok]) = Running"
    by (simp add: control_sseHandler iteration_Tick select_points host_points control_tick stream_start_simps f)
  have b: "Body (writer (sseHandler new_writer get_request [tick_point host_ok])) = stats_event stats_ok"
    by (simp add: writer_sseHandler iteration_Tick select_points host_points Body_tick stream_start_simps f getStats_stats_ok tick_event_def)
  from cancellation_closes [of new_writer get_request "[tick_point host_ok]" done_point
      "[tick_point host_ok]"] r select_points(2)
  have "control (sseHandler new_writer get_request ([tick_point host_ok] @ done_point # [tick_point host_ok])) =
      Returned"
    "ticker_stopped (sseHandler new_writer get_request ([tick_point host_ok] @ done_point # [tick_point host_ok]))"
    "writer (sseHandler new_writer get_request ([tick_point host_ok] @ done_point # [tick_point host_ok])) =
      writer (sseHandler new_writer get_request [tick_point host_ok])"
    by blast+
  with r b select_points(2) show ?thesis by simp
qed

section \<open>The select gives the cancellation no precedence\<close>

text \<open>
  C7, as stated, fails: when the cancellation and a tick can both proceed, the select
  may take the tick, and the handler then writes that tick's event. At such a point,
  with the tick chosen, a fresh session writes a \<open>stats\<close> event.
\<close>

theorem tick_taken_while_cancelled_counterexample:
  "done_ready both_pick_tick \<and> tick_ready both_pick_tick \<and>
   Body new_writer = [] \<and>
   Body (writer (sseHandler new_writer get_request [both_pick_tick])) =
     [Text (''event: stats'' @ LF @ ''data: ''), JSONLine (Marshal_SystemStats stats_ok),
      Text (LF @ LF)]"
proof -
  have f: "Flusher new_writer" "Body new_writer = []"
    by (simp_all add: new_writer_def)
  have "Body (writer (sseHandler new_writer get_request [both_pick_tick])) = stats_event stats_ok"
    by (simp add: writer_sseHandler iteration_Tick select_points host_points Body_tick stream_start_simps f getStats_stats_ok tick_event_def)
  then show ?thesis
    by (simp add: both_pick_tick_def stats_event_def f)
qed


text \<open>
  C7, amended. At a scheduling point of a running session where the cancellation is
  pending: when a tick is pending too and the select takes the tick, the handler writes
  that tick's \<open>stats\<close> or \<open>error\<close> event and goes on with the loop; when no tick is
  pending, or the select takes the cancellation, the handler returns and writes nothing
  more, whatever the schedule holds afterwards.
\<close>

theorem select_has_no_precedence:
  assumes "control s = Running" "done_ready p"
  shows "(tick_ready p \<and> pick p = ticker_C \<longrightarrow>
            loop s (p # ps) = loop (tick (host p) s) ps \<and>
            Body (writer (tick (host p) s)) = Body (writer s) @ tick_event (getStats (host p)) \<and>
            tick_event (getStats (host p)) \<noteq> []) \<and>
         (\<not> tick_ready p \<or> pick p = ctx_Done \<longrightarrow> loop s (p # ps) = s\<lparr>control := Returned\<rparr>)"
proof (intro conjI impI)
  assume "tick_ready p \<and> pick p = ticker_C"
  with assms(2) have "select p = Some ticker_C"
    by (simp add: select_def)
  then show "loop s (p # ps) = loop (tick (host p) s) ps"
    using assms(1) by (simp add: iteration_Tick)
next
  show "Body (writer (tick (host p) s)) = Body (writer s) @ tick_event (getStats (host p))"
    by (rule Body_tick)
next
  show "tick_event (getStats (host p)) \<noteq> []"
    by (rule tick_event_not_Nil)
next
  assume "\<not> tick_ready p \<or> pick p = ctx_Done"
  with assms(2) have "select p = Some ctx_Done"
    by (auto simp: select_def)
  then show "loop s (p # ps) = s\<lparr>control := Returned\<rparr>"
    using assms(1) by (simp add: iteration_Done loop_stopped)
qed

theorem select_has_no_precedence_witness:
  "control (stream_start new_writer) = Running \<and>
   done_ready both_pick_tick \<and> tick_ready both_pick_tick \<and> pick both_pick_tick = ticker_C \<and>
   done_ready both_pick_done \<and> pick both_pick_done = ctx_Done \<and>
   loop (stream_start new_writer) [both_pick_tick] = tick host_ok (stream_start new_writer) \<and>
   Body (writer (tick host_ok (stream_start new_writer))) = stats_event stats_ok \<and>
   loop (stream_start new_writer) [both_pick_done] = (stream_start new_writer)\<lparr>control := Returned\<rparr>"
proof -
  have r: "control (stream_start new_writer) = Running"
    by (rule stream_start_simps)
  have t: "done_ready both_pick_tick" "tick_ready both_pick_tick \<and> pick both_pick_tick = ticker_C"
    by (simp_all add: both_pick_tick_def)
  have d: "done_ready both_pick_done" "\<not> tick_ready both_pick_done \<or> pick both_pick_done = ctx_Done"
    by (simp_all add: both_pick_done_def)
  from select_has_no_precedence [OF r t(1), of Nil] t(2)
  have a: "loop (stream_start new_writer) [both_pick_tick] = loop (tick (host both_pick_tick) (stream_start new_writer)) []"
    "Body (writer (tick (host both_pick_tick) (stream_start new_writer))) =
      Body (writer (stream_start new_writer)) @ tick_event (getStats (host both_pick_tick))"
    by blast+
  from select_has_no_precedence [OF r d(1), of Nil] d(2)
  have b: "loop (stream_start new_writer) [both_pick_done] = (stream_start new_writer)\<lparr>control := Returned\<rparr>"
    by blast
  have n: "Body new_writer = []"
    by (simp add: new_writer_def)
  from a b r t d show ?thesis
    by (simp add: host_points getStats_stats_ok tick_event_def stream_start_simps n both_pick_done_def)
qed

section \<open>The streaming endpoint checks no method\<close>

text \<open>
  C10. \<open>sseHandler\<close> does the same for every request method; the headers of its response
  are \<open>Content-Type: text/event-stream\<close>, \<open>Cache-Control: no-cache\<close>,
  \<open>Connection: keep-alive\<close> and \<open>Access-Control-Allow-Origin: *\<close>. \<open>statsHandler\<close>
  answers a request whose method is not GET with status 405.
\<close>

theorem sseHandler_ignores_method:
  "sseHandler w r ps = sseHandler w (r\<lparr>Method := m\<rparr>) ps \<and>
   Header (writer (sseHandler w r ps)) ''Content-Type'' = Some ''text/event-stream'' \<and>
   Header (writer (sseHandler w r ps)) ''Cache-Control'' = Some ''no-cache'' \<and>
   Header (writer (sseHandler w r ps)) ''Connection'' = Some ''keep-alive'' \<and>
   Header (writer (sseHandler w r ps)) ''Access-Control-Allow-Origin'' = Some ''*'' \<and>
   (Method r \<noteq> ''GET'' \<and> StatusCode w = None \<longrightarrow>
      StatusCode (statsHandler h w r) = Some 405 \<and>
      Body (statsHandler h w r) = Body w @ [Text (''Method not allowed'' @ LF)])"
proof -
  have m: "sseHandler w r ps = sseHandler w (r\<lparr>Method := m\<rparr>) ps"
    by (simp add: sseHandler_def)
  have hd: "Header (writer (sseHandler w r ps)) = Header (writer (stream_start w))"
    by (simp add: writer_sseHandler Header_loop)
  have h1: "Header (writer (stream_start w)) ''Content-Type'' = Some ''text/event-stream''"
    and h2: "Header (writer (stream_start w)) ''Cache-Control'' = Some ''no-cache''"
    and h3: "Header (writer (stream_start w)) ''Connection'' = Some ''keep-alive''"
    and h4: "Header (writer (stream_start w)) ''Access-Control-Allow-Origin'' = Some ''*''"
    by (simp_all add: stream_start_def Header_Set_def)
  have s: "StatusCode (statsHandler h w r) = Some 405 \<and>
      Body (statsHandler h w r) = Body w @ [Text (''Method not allowed'' @ LF)]"
    if "Method r \<noteq> ''GET''" "StatusCode w = None"
  proof -
    from that(1) have "statsHandler h w r = http_Error w ''Method not allowed'' 405"
      by (simp add: statsHandler_def)
    then show ?thesis
      by (simp add: StatusCode_http_Error [OF that(2)] Body_http_Error)
  qed
  from m s show ?thesis
    unfolding hd h1 h2 h3 h4 by blast
qed

theorem sseHandler_ignores_method_witness:
  "Method post_request \<noteq> ''GET'' \<and> StatusCode new_writer = None \<and>
   sseHandler new_writer post_request [tick_point host_ok] =
     sseHandler new_writer get_request [tick_point host_ok] \<and>
   Header (writer (sseHandler new_writer post_request [tick_point host_ok]))
     ''Access-Control-Allow-Origin'' = Some ''*'' \<and>
   StatusCode (statsHandler host_ok new_writer post_request) = Some 405"
proof -
  have p: "Method post_request \<noteq> ''GET''" "post_request\<lparr>Method := ''GET''\<rparr> = get_request"
    by (simp_all add: post_request_def get_request_def)
  have n: "StatusCode new_writer = None"
    by (simp add: new_writer_def)
  from sseHandler_ignores_method [of new_writer post_request "[tick_point host_ok]" "''GET''" host_ok]
    p(1) n
  have "sseHandler new_writer post_request [tick_point host_ok] =
      sseHandler new_writer (post_request\<lparr>Method := ''GET''\<rparr>) [tick_point host_ok]"
    "Header (writer (sseHandler new_writer post_request [tick_point host_ok]))
      ''Access-Control-Allow-Origin'' = Some ''*''"
    "StatusCode (statsHandler host_ok new_writer post_request) = Some 405"
    by blast+
  with p n show ?thesis by simp
qed

end
